theory Spec2Isabelle
  imports Main "HOL-Library.Sublist"
begin

section \<open>String primitives of the host runtime\<close>

text \<open>
  Document text is a \<^typ>\<open>string\<close>: a list of characters addressed by index, as the
  runtime addresses UTF-16 units. Numbers are modelled as \<^typ>\<open>int\<close>; fractional
  values, NaN and infinities are outside the model.

  \<^verbatim>\<open>s.substring(a, b)\<close> clamps both arguments into \<open>[0, s.length]\<close> and swaps
  them when the first exceeds the second; \<^verbatim>\<open>s.substring(a)\<close> runs to the end.
\<close>

definition clamp_index :: "string \<Rightarrow> int \<Rightarrow> nat" where
  "clamp_index s i = nat (min (max i 0) (int (length s)))"

definition substring :: "string \<Rightarrow> int \<Rightarrow> int \<Rightarrow> string" where
  "substring s a b =
     (let finalStart = clamp_index s a;
          finalEnd = clamp_index s b;
          from = min finalStart finalEnd;
          to = max finalStart finalEnd
      in take (to - from) (drop from s))"

definition substring_from :: "string \<Rightarrow> int \<Rightarrow> string" where
  "substring_from s a = substring s a (int (length s))"

text \<open>
  \<^verbatim>\<open>s.indexOf(pat, pos)\<close>: the least index \<open>k \<ge> clamp pos\<close> at which \<open>pat\<close> occurs
  in \<open>s\<close>, or \<open>-1\<close>. The empty pattern occurs at every index up to \<open>s.length\<close>.
\<close>

fun search_from :: "string \<Rightarrow> string \<Rightarrow> nat \<Rightarrow> nat option" where
  "search_from pat [] k = (if pat = [] then Some k else None)"
| "search_from pat (c # cs) k =
     (if prefix pat (c # cs) then Some k else search_from pat cs (Suc k))"

definition indexOf :: "string \<Rightarrow> string \<Rightarrow> int \<Rightarrow> int" where
  "indexOf s pat pos =
     (let k = clamp_index s pos
      in case search_from pat (drop k s) k of None \<Rightarrow> - 1 | Some i \<Rightarrow> int i)"

definition endsWith :: "string \<Rightarrow> string \<Rightarrow> bool" where
  "endsWith s t = suffix t s"

definition startsWith :: "string \<Rightarrow> string \<Rightarrow> bool" where
  "startsWith s t = prefix t s"

section \<open>The operation model\<close>

record text_range =
  start :: int
  end' :: int

text \<open>
  The optional \<^verbatim>\<open>occurrence\<close> field: absent, \<^verbatim>\<open>null\<close>, or a number.
\<close>

datatype occurrence_field = Undefined | Null | Num int

record change =
  operation :: string
  range' :: text_range
  text' :: string
  occurrence :: occurrence_field
  contextBefore :: "string option"
  contextAfter :: "string option"

text \<open>
  The algorithm raises plain errors told apart by their message; the model keeps the
  kind of each error and drops the message text.
\<close>

datatype apply_error =
    NoMatchingOccurrence
  | InvalidOccurrence
  | UnknownOperation

section \<open>The change application algorithm\<close>

subsection \<open>applyOperation\<close>

definition applyOperation ::
  "string \<Rightarrow> string \<Rightarrow> int \<Rightarrow> int \<Rightarrow> string \<Rightarrow> apply_error + string" where
  "applyOperation content opn startp endp txt =
     (if opn = ''replace'' then
        Inr (substring content 0 startp @ txt @ substring_from content endp)
      else if opn = ''insert'' then
        Inr (substring content 0 startp @ txt @ substring_from content startp)
      else if opn = ''delete'' then
        Inr (substring content 0 startp @ substring_from content endp)
      else Inl UnknownOperation)"

subsection \<open>findOccurrences\<close>

definition contextBefore_ok :: "string \<Rightarrow> int \<Rightarrow> string option \<Rightarrow> bool" where
  "contextBefore_ok content index cb =
     (case cb of
        None \<Rightarrow> True
      | Some ctx \<Rightarrow>
          if ctx = [] then True
          else
            (let contextStart = max 0 (index - int (length ctx));
                 actualContextBefore = substring content contextStart index
             in endsWith actualContextBefore ctx))"

definition contextAfter_ok :: "string \<Rightarrow> string \<Rightarrow> int \<Rightarrow> string option \<Rightarrow> bool" where
  "contextAfter_ok content searchText index ca =
     (case ca of
        None \<Rightarrow> True
      | Some ctx \<Rightarrow>
          if ctx = [] then True
          else
            (let contextEnd =
                   min (int (length content))
                       (index + int (length searchText) + int (length ctx));
                 actualContextAfter =
                   substring content (index + int (length searchText)) contextEnd
             in startsWith actualContextAfter ctx))"

lemma search_from_ge: "search_from pat s k = Some i \<Longrightarrow> k \<le> i"
  by (induction s arbitrary: k) (auto split: if_splits dest: Suc_leD)

lemma indexOf_ge:
  assumes "indexOf s pat pos \<noteq> - 1"
  shows "int (clamp_index s pos) \<le> indexOf s pat pos"
  using assms search_from_ge [of pat "drop (clamp_index s pos) s" "clamp_index s pos"]
  by (auto simp: indexOf_def Let_def split: option.splits)

lemma clamp_index_ge: "p < int (length s) \<Longrightarrow> p \<le> int (clamp_index s p)"
  by (simp add: clamp_index_def)

function findOccurrences_loop ::
  "string \<Rightarrow> string \<Rightarrow> string option \<Rightarrow> string option \<Rightarrow> int \<Rightarrow> int list \<Rightarrow> int list" where
  "findOccurrences_loop content searchText cb ca position occurrences =
     (if position < int (length content) then
        (let index = indexOf content searchText position in
         if index = - 1 then occurrences
         else if \<not> contextBefore_ok content index cb then
           findOccurrences_loop content searchText cb ca (index + 1) occurrences
         else if \<not> contextAfter_ok content searchText index ca then
           findOccurrences_loop content searchText cb ca (index + 1) occurrences
         else
           findOccurrences_loop content searchText cb ca (index + 1) (occurrences @ [index]))
      else occurrences)"
  by pat_completeness auto
termination
proof (relation "measure (\<lambda>(content, searchText, cb, ca, position, occurrences).
                    nat (int (length content) - position))")
  show "wf (measure (\<lambda>(content, searchText, cb, ca, position, occurrences).
                    nat (int (length content) - position)))"
    by simp
next
  fix content searchText :: string and cb ca :: "string option"
    and position index :: int and occurrences :: "int list"
  assume a: "position < int (length content)"
    and i: "index = indexOf content searchText position" "index \<noteq> - 1"
  from indexOf_ge [of content searchText position] i a
  have "position \<le> index" using clamp_index_ge [of position content] by simp
  with a show
    "((content, searchText, cb, ca, index + 1, occurrences),
      (content, searchText, cb, ca, position, occurrences))
     \<in> measure (\<lambda>(content, searchText, cb, ca, position, occurrences).
                    nat (int (length content) - position))"
    "((content, searchText, cb, ca, index + 1, occurrences),
      (content, searchText, cb, ca, position, occurrences))
     \<in> measure (\<lambda>(content, searchText, cb, ca, position, occurrences).
                    nat (int (length content) - position))"
    "((content, searchText, cb, ca, index + 1, occurrences @ [index]),
      (content, searchText, cb, ca, position, occurrences))
     \<in> measure (\<lambda>(content, searchText, cb, ca, position, occurrences).
                    nat (int (length content) - position))"
    by simp_all
qed

definition findOccurrences ::
  "string \<Rightarrow> string \<Rightarrow> string option \<Rightarrow> string option \<Rightarrow> int list" where
  "findOccurrences content searchText cb ca =
     findOccurrences_loop content searchText cb ca 0 []"

subsection \<open>applyChanges\<close>

text \<open>
  The reverse loop over the occurrences array: the counter is \<open>i + 1\<close>, so that
  \<open>applyAll \<dots> (length occurrences)\<close> visits \<open>i = length - 1, \<dots>, 0\<close>.
\<close>

fun applyAll ::
  "string \<Rightarrow> string \<Rightarrow> int list \<Rightarrow> nat \<Rightarrow> int \<Rightarrow> string \<Rightarrow> apply_error + string" where
  "applyAll updatedContent opn occurrences 0 searchLength txt = Inr updatedContent"
| "applyAll updatedContent opn occurrences (Suc i) searchLength txt =
     (let occStart = occurrences ! i;
          occEnd = occStart + searchLength
      in case applyOperation updatedContent opn occStart occEnd txt of
           Inl e \<Rightarrow> Inl e
         | Inr updated \<Rightarrow> applyAll updated opn occurrences i searchLength txt)"

text \<open>
  The numeric reading of the occurrence field in a comparison. Only the \<open>Num\<close> case
  is reached: the branch for absent and \<^verbatim>\<open>null\<close> values is taken before.
\<close>

fun to_number :: "occurrence_field \<Rightarrow> int" where
  "to_number (Num n) = n"
| "to_number Null = 0"
| "to_number Undefined = 0"

text \<open>
  One iteration of the loop over the changes, on the pair of the updated content and the
  cumulative offset. A raised error is the \<open>Inl\<close> result.
\<close>

definition applyChange :: "string \<times> int \<Rightarrow> change \<Rightarrow> apply_error + (string \<times> int)" where
  "applyChange st c =
     (let updatedContent = fst st; cumulativeOffset = snd st in
      if occurrence c \<noteq> Undefined \<or> contextBefore c \<noteq> None \<or> contextAfter c \<noteq> None then
        (let searchText =
               substring updatedContent
                 (start (range' c) + cumulativeOffset) (end' (range' c) + cumulativeOffset);
             searchLength = int (length searchText);
             occurrences =
               findOccurrences updatedContent searchText (contextBefore c) (contextAfter c)
         in
           if length occurrences = 0 then Inl NoMatchingOccurrence
           else if occurrence c = Undefined \<or> occurrence c = Null
                   \<or> occurrence c = Num (- 1) then
             (case applyAll updatedContent (operation c) occurrences
                     (length occurrences) searchLength (text' c) of
                Inl e \<Rightarrow> Inl e
              | Inr updated \<Rightarrow> Inr (updated, 0))
           else if to_number (occurrence c) > 0
                   \<and> to_number (occurrence c) \<le> int (length occurrences) then
             (let targetIndex = to_number (occurrence c) - 1;
                  occStart = occurrences ! nat targetIndex;
                  occEnd = occStart + searchLength
              in case applyOperation updatedContent (operation c)
                        occStart occEnd (text' c) of
                   Inl e \<Rightarrow> Inl e
                 | Inr updated \<Rightarrow> Inr (updated, 0))
           else Inl InvalidOccurrence)
      else
        (let adjustedStart = start (range' c) + cumulativeOffset;
             adjustedEnd = end' (range' c) + cumulativeOffset;
             lengthBefore = int (length updatedContent)
         in case applyOperation updatedContent (operation c)
                   adjustedStart adjustedEnd (text' c) of
              Inl e \<Rightarrow> Inl e
            | Inr updated \<Rightarrow>
                Inr (updated, cumulativeOffset + (int (length updated) - lengthBefore))))"

fun applyChanges_loop ::
  "string \<times> int \<Rightarrow> change list \<Rightarrow> apply_error + (string \<times> int)" where
  "applyChanges_loop st [] = Inr st"
| "applyChanges_loop st (c # cs) =
     (case applyChange st c of
        Inl e \<Rightarrow> Inl e
      | Inr st' \<Rightarrow> applyChanges_loop st' cs)"

definition applyChanges :: "string \<Rightarrow> change list \<Rightarrow> apply_error + string" where
  "applyChanges content changes =
     (case applyChanges_loop (content, 0) changes of
        Inl e \<Rightarrow> Inl e
      | Inr st \<Rightarrow> Inr (fst st))"

text \<open>
  A change with no occurrence and no context field, as the positional client encoding
  and the tests write it.
\<close>

definition positional :: "string \<Rightarrow> int \<Rightarrow> int \<Rightarrow> string \<Rightarrow> change" where
  "positional opn s e txt =
     \<lparr>operation = opn, range' = \<lparr>start = s, end' = e\<rparr>, text' = txt,
      occurrence = Undefined, contextBefore = None, contextAfter = None\<rparr>"

section \<open>Validation of incoming change objects\<close>

text \<open>
  The validator takes a value of any shape. Runtime values are modelled by
  \<open>js_value\<close>: an object is the list of its properties (keys distinct, as after
  JSON parsing), a number is an integer.
\<close>

datatype js_value =
    JUndefined
  | JNull
  | JBool bool
  | JNum int
  | JStr string
  | JArr "js_value list"
  | JObj "(string \<times> js_value) list"

fun truthy :: "js_value \<Rightarrow> bool" where
  "truthy JUndefined = False"
| "truthy JNull = False"
| "truthy (JBool b) = b"
| "truthy (JNum n) = (n \<noteq> 0)"
| "truthy (JStr s) = (s \<noteq> [])"
| "truthy (JArr xs) = True"
| "truthy (JObj ps) = True"

fun typeof :: "js_value \<Rightarrow> string" where
  "typeof JUndefined = ''undefined''"
| "typeof JNull = ''object''"
| "typeof (JBool b) = ''boolean''"
| "typeof (JNum n) = ''number''"
| "typeof (JStr s) = ''string''"
| "typeof (JArr xs) = ''object''"
| "typeof (JObj ps) = ''object''"

text \<open>
  Reading a named property. On a primitive or an array none of the names used here is
  defined. The validator reads a property of a value only after it has found the value
  truthy, so the reads of \<^verbatim>\<open>undefined\<close> and \<^verbatim>\<open>null\<close> that would raise never
  happen; here they give \<open>JUndefined\<close>, under a conjunction that is already false.
\<close>

fun get_prop :: "js_value \<Rightarrow> string \<Rightarrow> js_value" where
  "get_prop (JObj ps) key = (case map_of ps key of None \<Rightarrow> JUndefined | Some v \<Rightarrow> v)"
| "get_prop v key = JUndefined"

fun less_than_one :: "js_value \<Rightarrow> bool" where
  "less_than_one (JNum n) = (n < 1)"
| "less_than_one v = False"

definition isValidChange :: "js_value \<Rightarrow> bool" where
  "isValidChange change =
     (let isBasicValid =
            (truthy change
             \<and> typeof change = ''object''
             \<and> get_prop change ''operation''
                   \<in> set [JStr ''replace'', JStr ''insert'', JStr ''delete'']
             \<and> truthy (get_prop change ''range'')
             \<and> typeof (get_prop (get_prop change ''range'') ''start'') = ''number''
             \<and> typeof (get_prop (get_prop change ''range'') ''end'') = ''number''
             \<and> typeof (get_prop change ''text'') = ''string'')
      in
        if \<not> isBasicValid then False
        else if get_prop change ''occurrence'' \<noteq> JUndefined
                \<and> (typeof (get_prop change ''occurrence'') \<noteq> ''number''
                     \<or> (get_prop change ''occurrence'' \<noteq> JNum (- 1)
                         \<and> less_than_one (get_prop change ''occurrence''))) then False
        else if get_prop change ''contextBefore'' \<noteq> JUndefined
                \<and> typeof (get_prop change ''contextBefore'') \<noteq> ''string'' then False
        else if get_prop change ''contextAfter'' \<noteq> JUndefined
                \<and> typeof (get_prop change ''contextAfter'') \<noteq> ''string'' then False
        else True)"

text \<open>
  A change of the declared type as the runtime object it is, and a validated object read
  at the declared type. Absent optional fields are absent properties.
\<close>

definition change_to_js :: "change \<Rightarrow> js_value" where
  "change_to_js c =
     JObj ([(''operation'', JStr (operation c)),
            (''range'', JObj [(''start'', JNum (start (range' c))),
                              (''end'', JNum (end' (range' c)))]),
            (''text'', JStr (text' c))]
           @ (case occurrence c of
                Undefined \<Rightarrow> []
              | Null \<Rightarrow> [(''occurrence'', JNull)]
              | Num n \<Rightarrow> [(''occurrence'', JNum n)])
           @ (case contextBefore c of None \<Rightarrow> [] | Some s \<Rightarrow> [(''contextBefore'', JStr s)])
           @ (case contextAfter c of None \<Rightarrow> [] | Some s \<Rightarrow> [(''contextAfter'', JStr s)]))"

fun number_of :: "js_value \<Rightarrow> int" where
  "number_of (JNum n) = n"
| "number_of v = 0"

fun string_of :: "js_value \<Rightarrow> string" where
  "string_of (JStr s) = s"
| "string_of v = []"

fun occurrence_of :: "js_value \<Rightarrow> occurrence_field" where
  "occurrence_of (JNum n) = Num n"
| "occurrence_of JNull = Null"
| "occurrence_of v = Undefined"

fun optional_string_of :: "js_value \<Rightarrow> string option" where
  "optional_string_of (JStr s) = Some s"
| "optional_string_of v = None"

definition change_of_js :: "js_value \<Rightarrow> change" where
  "change_of_js v =
     \<lparr>operation = string_of (get_prop v ''operation''),
      range' = \<lparr>start = number_of (get_prop (get_prop v ''range'') ''start''),
                end' = number_of (get_prop (get_prop v ''range'') ''end'')\<rparr>,
      text' = string_of (get_prop v ''text''),
      occurrence = occurrence_of (get_prop v ''occurrence''),
      contextBefore = optional_string_of (get_prop v ''contextBefore''),
      contextAfter = optional_string_of (get_prop v ''contextAfter'')\<rparr>"

section \<open>The document service\<close>

subsection \<open>Stored rows\<close>

record document =
  doc_id :: string
  content' :: string
  version :: int
  etag :: string

record documentVersion =
  snapshot_documentId :: string
  snapshot_version :: int
  snapshot_content :: string

record change_row =
  row_documentId :: string
  row_text :: string
  row_operation :: string
  row_rangeStart :: int
  row_rangeEnd :: int
  row_occurrence :: occurrence_field
  row_contextBefore :: "string option"
  row_contextAfter :: "string option"

record database =
  documents :: "document list"
  versions :: "documentVersion list"
  changes :: "change_row list"

record UpdateDocumentDto =
  dto_content :: "string option"

text \<open>
  The service raises \<^verbatim>\<open>AppError(status, message)\<close>; any other error raised inside a
  service method is turned into status 500 by the wrapper around it. A service method
  takes the store and returns its outcome together with the store it leaves: the writes
  of a method are the last thing it does, in one transaction.
\<close>

datatype service_error =
    InvalidChangeFormat
  | NotFound
  | VersionConflict
  | ETagMismatch
  | ServerError

fun statusCode :: "service_error \<Rightarrow> nat" where
  "statusCode InvalidChangeFormat = 400"
| "statusCode NotFound = 404"
| "statusCode VersionConflict = 409"
| "statusCode ETagMismatch = 409"
| "statusCode ServerError = 500"

subsection \<open>The fingerprint\<close>

text \<open>
  The ETag is the first 16 characters of the hexadecimal SHA-256 digest of
  \<^verbatim>\<open>content:version:timestamp\<close>. The digest function is a parameter, and the
  timestamp is given as its ISO string.
\<close>

fun show_nat :: "nat \<Rightarrow> string" where
  "show_nat n =
     (if n < 10 then [''0123456789'' ! n]
      else show_nat (n div 10) @ [''0123456789'' ! (n mod 10)])"

definition show_int :: "int \<Rightarrow> string" where
  "show_int i = (if i < 0 then CHR ''-'' # show_nat (nat (- i)) else show_nat (nat i))"

definition generateETag :: "(string \<Rightarrow> string) \<Rightarrow> string \<Rightarrow> int \<Rightarrow> string \<Rightarrow> string" where
  "generateETag sha256_hex cont ver updatedAt =
     take 16 (sha256_hex (cont @ '':'' @ show_int ver @ '':'' @ updatedAt))"

subsection \<open>Storage operations\<close>

definition findUnique :: "document list \<Rightarrow> string \<Rightarrow> document option" where
  "findUnique table ident = find (\<lambda>d. doc_id d = ident) table"

definition update_where :: "document list \<Rightarrow> string \<Rightarrow> (document \<Rightarrow> document) \<Rightarrow> document list" where
  "update_where table ident f = map (\<lambda>d. if doc_id d = ident then f d else d) table"

definition change_row_of :: "string \<Rightarrow> change \<Rightarrow> change_row" where
  "change_row_of ident c =
     \<lparr>row_documentId = ident, row_text = text' c, row_operation = operation c,
      row_rangeStart = start (range' c), row_rangeEnd = end' (range' c),
      row_occurrence = occurrence c, row_contextBefore = contextBefore c,
      row_contextAfter = contextAfter c\<rparr>"

text \<open>
  Snapshots are unique per document and version number (the compound key
  \<^verbatim>\<open>documentId_version\<close>): creating a second one for the same pair is rejected by
  the store.
\<close>

definition snapshot_exists :: "documentVersion list \<Rightarrow> string \<Rightarrow> int \<Rightarrow> bool" where
  "snapshot_exists table ident ver =
     list_ex (\<lambda>s. snapshot_documentId s = ident \<and> snapshot_version s = ver) table"

subsection \<open>updateDocument\<close>

definition updateDocument ::
  "(string \<Rightarrow> string) \<Rightarrow> string \<Rightarrow> database \<Rightarrow> string \<Rightarrow> UpdateDocumentDto
     \<Rightarrow> int option \<Rightarrow> string option \<Rightarrow> (service_error + document) \<times> database" where
  "updateDocument sha256_hex now db ident data expectedVersion expectedETag =
     (case findUnique (documents db) ident of
        None \<Rightarrow> (Inl NotFound, db)
      | Some currentDoc \<Rightarrow>
          if expectedVersion \<noteq> None \<and> version currentDoc \<noteq> the expectedVersion then
            (Inl VersionConflict, db)
          else if expectedETag \<noteq> None \<and> etag currentDoc \<noteq> the expectedETag then
            (Inl ETagMismatch, db)
          else
            (let newContent =
                   (case dto_content data of Some c \<Rightarrow> c | None \<Rightarrow> content' currentDoc);
                 newETag = generateETag sha256_hex newContent (version currentDoc) now;
                 updated = currentDoc\<lparr>content' := newContent, etag := newETag\<rparr>
             in (Inr updated,
                     db\<lparr>documents := update_where (documents db) ident (\<lambda>d. updated)\<rparr>)))"

subsection \<open>applyChangesToDocument\<close>

definition applyChangesToDocument ::
  "(string \<Rightarrow> string) \<Rightarrow> string \<Rightarrow> database \<Rightarrow> string \<Rightarrow> js_value list
     \<Rightarrow> int option \<Rightarrow> string option \<Rightarrow> (service_error + document) \<times> database" where
  "applyChangesToDocument sha256_hex now db ident changeList expectedVersion expectedETag =
     (if \<not> list_all isValidChange changeList then (Inl InvalidChangeFormat, db)
      else
        (case findUnique (documents db) ident of
           None \<Rightarrow> (Inl NotFound, db)
         | Some doc \<Rightarrow>
             if expectedVersion \<noteq> None \<and> version doc \<noteq> the expectedVersion then
               (Inl VersionConflict, db)
             else if expectedETag \<noteq> None \<and> etag doc \<noteq> the expectedETag then
               (Inl ETagMismatch, db)
             else
               (case applyChanges (content' doc) (map change_of_js changeList) of
                  Inl e \<Rightarrow> (Inl ServerError, db)
                | Inr updatedContent \<Rightarrow>
                    (let newETag = generateETag sha256_hex updatedContent (version doc) now;
                         updated = doc\<lparr>content' := updatedContent, etag := newETag\<rparr>
                     in (Inr updated,
                             db\<lparr>changes :=
                                   changes db
                                   @ map (\<lambda>v. change_row_of ident (change_of_js v)) changeList,
                                 documents :=
                                   update_where (documents db) ident (\<lambda>d. updated)\<rparr>)))))"

subsection \<open>publishDocument\<close>

definition publishDocument ::
  "(string \<Rightarrow> string) \<Rightarrow> string \<Rightarrow> database \<Rightarrow> string
     \<Rightarrow> (service_error + document) \<times> database" where
  "publishDocument sha256_hex now db ident =
     (case findUnique (documents db) ident of
        None \<Rightarrow> (Inl NotFound, db)
      | Some doc \<Rightarrow>
          (let publishedVersion = version doc;
               nextWorkingVersion = version doc + 1;
               newETag = generateETag sha256_hex (content' doc) nextWorkingVersion now
           in
             if snapshot_exists (versions db) ident publishedVersion then (Inl ServerError, db)
             else
               (let updated = doc\<lparr>version := nextWorkingVersion, etag := newETag\<rparr>
                in (Inr updated,
                        db\<lparr>versions :=
                              versions db
                              @ [\<lparr>snapshot_documentId = ident,
                                  snapshot_version = publishedVersion,
                                  snapshot_content = content' doc\<rparr>],
                            documents :=
                              update_where (documents db) ident (\<lambda>d. updated)\<rparr>))))"

section \<open>The change strategy selector\<close>

text \<open>
  The optional flags of the context are \<^typ>\<open>bool option\<close> and \<^typ>\<open>int option\<close>:
  an absent field is \<open>None\<close>. In a condition an absent flag, \<open>false\<close> and the
  number 0 are all falsy.
\<close>

record ChangeContext =
  documentContent :: string
  selection :: text_range
  isCollaborative :: "bool option"
  hasRecentRemoteChanges :: "bool option"
  queueLength :: "int option"
  timeSinceLastSync :: "int option"

datatype ChangeStrategy = RangeBased | ContentBased

definition DUPLICATE_THRESHOLD :: int where
  "DUPLICATE_THRESHOLD = 1"

definition QUEUE_LENGTH_THRESHOLD :: int where
  "QUEUE_LENGTH_THRESHOLD = 3"

definition STALE_POSITION_THRESHOLD_MS :: int where
  "STALE_POSITION_THRESHOLD_MS = 2000"

fun truthy_flag :: "bool option \<Rightarrow> bool" where
  "truthy_flag (Some b) = b"
| "truthy_flag None = False"

fun truthy_number :: "int option \<Rightarrow> bool" where
  "truthy_number (Some n) = (n \<noteq> 0)"
| "truthy_number None = False"

function countOccurrences_loop :: "string \<Rightarrow> string \<Rightarrow> int \<Rightarrow> int \<Rightarrow> int" where
  "countOccurrences_loop content pattern position count =
     (if position < int (length content) then
        (let index = indexOf content pattern position in
         if index = - 1 then count
         else countOccurrences_loop content pattern (index + 1) (count + 1))
      else count)"
  by pat_completeness auto
termination
proof (relation "measure (\<lambda>(content, pattern, position, count).
                    nat (int (length content) - position))")
  show "wf (measure (\<lambda>(content, pattern, position, count).
                    nat (int (length content) - position)))"
    by simp
next
  fix content pattern :: string and position count index :: int
  assume a: "position < int (length content)"
    and i: "index = indexOf content pattern position" "index \<noteq> - 1"
  from indexOf_ge [of content pattern position] i a
  have "position \<le> index" using clamp_index_ge [of position content] by simp
  with a show
    "((content, pattern, index + 1, count + 1), (content, pattern, position, count))
     \<in> measure (\<lambda>(content, pattern, position, count).
                    nat (int (length content) - position))"
    by simp
qed

definition countOccurrences :: "string \<Rightarrow> string \<Rightarrow> int" where
  "countOccurrences content pattern =
     (if length pattern = 0 then 0 else countOccurrences_loop content pattern 0 0)"

definition determineChangeStrategy :: "ChangeContext \<Rightarrow> ChangeStrategy" where
  "determineChangeStrategy context =
     (let selectedText =
            substring (documentContent context)
              (start (selection context)) (end' (selection context))
      in
        if length selectedText = 0 then RangeBased
        else if truthy_flag (hasRecentRemoteChanges context) then ContentBased
        else if truthy_number (queueLength context)
                \<and> the (queueLength context) \<ge> QUEUE_LENGTH_THRESHOLD then ContentBased
        else if truthy_number (timeSinceLastSync context)
                \<and> the (timeSinceLastSync context) \<ge> STALE_POSITION_THRESHOLD_MS
             then ContentBased
        else if countOccurrences (documentContent context) selectedText
                  > DUPLICATE_THRESHOLD then ContentBased
        else if truthy_flag (isCollaborative context) then ContentBased
        else RangeBased)"

section \<open>The change buffer\<close>

text \<open>
  The buffer object with its fields, and the runtime its methods act on: the timers
  that are armed (each calls \<^verbatim>\<open>flush\<close> when it fires), the requests that were sent
  and are not yet answered, and the calls made to the two callbacks. A timer handle is
  a positive number, so every handle is truthy. The flush method is asynchronous: it is
  modelled by its part up to the network call, and by the two continuations that run
  when the call is fulfilled or rejected.
\<close>

record request =
  request_documentId :: string
  request_changes :: "change list"
  request_etag :: "string option"

datatype callback = OnFlush bool "string option" | OnConflict

record ChangeBuffer =
  idleTimeoutId :: "nat option"
  maxWaitTimeoutId :: "nat option"
  documentId :: string
  lastSyncTime :: nat
  hasRecentRemoteChanges' :: bool
  currentETag :: "string option"
  isFlushInProgress :: bool
  currentEditorContent :: string
  lastSavedContent :: string
  hasUnflushedChanges :: bool

record runtime =
  buffer :: ChangeBuffer
  timers :: "(nat \<times> nat) list"
  nextTimerId :: nat
  inFlight :: "request list"
  callbacks :: "callback list"

definition maxWaitMs :: nat where
  "maxWaitMs = 2000"

definition idleWaitMs :: nat where
  "idleWaitMs = 500"

definition setTimeout :: "nat \<Rightarrow> runtime \<Rightarrow> nat \<times> runtime" where
  "setTimeout delay rt =
     (nextTimerId rt,
      rt\<lparr>timers := timers rt @ [(nextTimerId rt, delay)],
         nextTimerId := nextTimerId rt + 1\<rparr>)"

definition clearTimeout :: "nat \<Rightarrow> runtime \<Rightarrow> runtime" where
  "clearTimeout handle rt = rt\<lparr>timers := filter (\<lambda>t. fst t \<noteq> handle) (timers rt)\<rparr>"

definition new_buffer :: "string \<Rightarrow> nat \<Rightarrow> runtime" where
  "new_buffer ident now =
     \<lparr>buffer =
        \<lparr>idleTimeoutId = None, maxWaitTimeoutId = None, documentId = ident,
         lastSyncTime = now, hasRecentRemoteChanges' = False, currentETag = None,
         isFlushInProgress = False, currentEditorContent = [], lastSavedContent = [],
         hasUnflushedChanges = False\<rparr>,
      timers = [], nextTimerId = 1, inFlight = [], callbacks = []\<rparr>"


definition setLastSavedContent :: "string \<Rightarrow> runtime \<Rightarrow> runtime" where
  "setLastSavedContent cont rt = rt\<lparr>buffer := (buffer rt)\<lparr>lastSavedContent := cont\<rparr>\<rparr>"

definition setETag :: "string \<Rightarrow> runtime \<Rightarrow> runtime" where
  "setETag tag rt = rt\<lparr>buffer := (buffer rt)\<lparr>currentETag := Some tag\<rparr>\<rparr>"

definition setRemoteChangesDetected :: "bool \<Rightarrow> runtime \<Rightarrow> runtime" where
  "setRemoteChangesDetected detected rt =
     rt\<lparr>buffer := (buffer rt)\<lparr>hasRecentRemoteChanges' := detected\<rparr>\<rparr>"

definition getQueueLength :: "runtime \<Rightarrow> int" where
  "getQueueLength rt = (if hasUnflushedChanges (buffer rt) then 1 else 0)"

definition addChange :: "change \<Rightarrow> string \<Rightarrow> runtime \<Rightarrow> runtime" where
  "addChange unused_change currentContent rt =
     (let rt1 = rt\<lparr>buffer := (buffer rt)\<lparr>currentEditorContent := currentContent,
                                          hasUnflushedChanges := True\<rparr>\<rparr>
      in
        if isFlushInProgress (buffer rt1) then rt1
        else
          (let rt2 = (case idleTimeoutId (buffer rt1) of
                        Some handle \<Rightarrow> clearTimeout handle rt1
                      | None \<Rightarrow> rt1);
               rt3 = (case maxWaitTimeoutId (buffer rt2) of
                        None \<Rightarrow>
                          (let armed = setTimeout maxWaitMs rt2
                           in (snd armed)\<lparr>buffer :=
                                 (buffer (snd armed))\<lparr>maxWaitTimeoutId := Some (fst armed)\<rparr>\<rparr>)
                      | Some handle \<Rightarrow> rt2);
               armed = setTimeout idleWaitMs rt3
           in (snd armed)\<lparr>buffer :=
                 (buffer (snd armed))\<lparr>idleTimeoutId := Some (fst armed)\<rparr>\<rparr>))"

text \<open>
  \<^verbatim>\<open>this.currentETag || undefined\<close>: a missing or empty ETag sends no precondition.
\<close>

definition etag_or_undefined :: "string option \<Rightarrow> string option" where
  "etag_or_undefined tag =
     (case tag of None \<Rightarrow> None | Some t \<Rightarrow> if t = [] then None else Some t)"

text \<open>The flush method up to and including the network call.\<close>

definition flush :: "runtime \<Rightarrow> runtime" where
  "flush rt =
     (let rt1 = (case idleTimeoutId (buffer rt) of
                   Some handle \<Rightarrow>
                     (clearTimeout handle rt)\<lparr>buffer := (buffer rt)\<lparr>idleTimeoutId := None\<rparr>\<rparr>
                 | None \<Rightarrow> rt);
          rt2 = (case maxWaitTimeoutId (buffer rt1) of
                   Some handle \<Rightarrow>
                     (clearTimeout handle rt1)\<lparr>buffer :=
                        (buffer rt1)\<lparr>maxWaitTimeoutId := None\<rparr>\<rparr>
                 | None \<Rightarrow> rt1)
      in
        if \<not> hasUnflushedChanges (buffer rt2) then rt2
        else
          (let change =
                 \<lparr>operation = ''replace'',
                  range' = \<lparr>start = 0, end' = int (length (lastSavedContent (buffer rt2)))\<rparr>,
                  text' = currentEditorContent (buffer rt2),
                  occurrence = Undefined, contextBefore = None, contextAfter = None\<rparr>;
               sent =
                 \<lparr>request_documentId = documentId (buffer rt2),
                  request_changes = [change],
                  request_etag = etag_or_undefined (currentETag (buffer rt2))\<rparr>
           in rt2\<lparr>buffer := (buffer rt2)\<lparr>isFlushInProgress := True,
                                            hasUnflushedChanges := False\<rparr>,
                  inFlight := inFlight rt2 @ [sent]\<rparr>))"

definition forceFlush :: "runtime \<Rightarrow> runtime" where
  "forceFlush rt = flush rt"

text \<open>The rest of the flush method once the request is fulfilled.\<close>

definition flush_fulfilled :: "document \<Rightarrow> nat \<Rightarrow> runtime \<Rightarrow> runtime" where
  "flush_fulfilled updatedDoc now rt =
     (let rt1 = rt\<lparr>buffer := (buffer rt)\<lparr>currentETag := Some (etag updatedDoc),
                                          lastSavedContent := content' updatedDoc,
                                          lastSyncTime := now,
                                          hasRecentRemoteChanges' := False\<rparr>,
                    callbacks := callbacks rt @ [OnFlush True (Some (content' updatedDoc))]\<rparr>;
          rt2 = (if currentEditorContent (buffer rt1) \<noteq> content' updatedDoc then
                   (let armed = setTimeout 100 rt1
                    in (snd armed)\<lparr>buffer :=
                          (buffer (snd armed))\<lparr>hasUnflushedChanges := True,
                                               idleTimeoutId := Some (fst armed)\<rparr>\<rparr>)
                 else rt1)
      in rt2\<lparr>buffer := (buffer rt2)\<lparr>isFlushInProgress := False\<rparr>\<rparr>)"

text \<open>
  The rest of the flush method once the request is rejected with an error message:
  a message that holds \<^verbatim>\<open>409\<close> is a conflict, any other failure marks the changes
  as unflushed again.
\<close>

definition includes' :: "string \<Rightarrow> string \<Rightarrow> bool" where
  "includes' s pat = (indexOf s pat 0 \<noteq> - 1)"

definition flush_rejected :: "string \<Rightarrow> runtime \<Rightarrow> runtime" where
  "flush_rejected message rt =
     (let rt1 = (if message \<noteq> [] \<and> includes' message ''409'' then
                   rt\<lparr>callbacks := callbacks rt @ [OnConflict, OnFlush False None]\<rparr>
                 else
                   rt\<lparr>buffer := (buffer rt)\<lparr>hasUnflushedChanges := True\<rparr>,
                      callbacks := callbacks rt @ [OnFlush False None]\<rparr>)
      in rt1\<lparr>buffer := (buffer rt1)\<lparr>isFlushInProgress := False\<rparr>\<rparr>)"

definition destroy :: "runtime \<Rightarrow> runtime" where
  "destroy rt =
     (let rt1 = (case idleTimeoutId (buffer rt) of
                   Some handle \<Rightarrow> clearTimeout handle rt
                 | None \<Rightarrow> rt)
      in case maxWaitTimeoutId (buffer rt1) of
           Some handle \<Rightarrow> clearTimeout handle rt1
         | None \<Rightarrow> rt1)"

subsection \<open>Events\<close>

text \<open>
  What can happen to a buffer: a call of one of its methods, an armed timer firing
  (which removes the timer and calls flush), and the answer to a request in flight
  (which removes the request and runs the continuation of the flush that sent it).
\<close>

datatype outcome = Fulfilled document nat | Rejected string

datatype event =
    AddChange change string
  | Flush
  | ForceFlush
  | TimerFires nat
  | Response nat outcome
  | SetETag string
  | SetLastSavedContent string
  | SetRemoteChangesDetected bool
  | Destroy

fun step :: "event \<Rightarrow> runtime \<Rightarrow> runtime" where
  "step (AddChange c currentContent) rt = addChange c currentContent rt"
| "step Flush rt = flush rt"
| "step ForceFlush rt = forceFlush rt"
| "step (TimerFires handle) rt =
     (if handle \<in> fst ` set (timers rt) then
        flush (rt\<lparr>timers := filter (\<lambda>t. fst t \<noteq> handle) (timers rt)\<rparr>)
      else rt)"
| "step (Response i result) rt =
     (if i < length (inFlight rt) then
        (let rt1 = rt\<lparr>inFlight := take i (inFlight rt) @ drop (Suc i) (inFlight rt)\<rparr>
         in case result of
              Fulfilled updatedDoc now \<Rightarrow> flush_fulfilled updatedDoc now rt1
            | Rejected message \<Rightarrow> flush_rejected message rt1)
      else rt)"
| "step (SetETag tag) rt = setETag tag rt"
| "step (SetLastSavedContent cont) rt = setLastSavedContent cont rt"
| "step (SetRemoteChangesDetected detected) rt = setRemoteChangesDetected detected rt"
| "step Destroy rt = destroy rt"

fun run :: "event list \<Rightarrow> runtime \<Rightarrow> runtime" where
  "run [] rt = rt"
| "run (e # es) rt = run es (step e rt)"

section \<open>Reference definitions for the patch engine\<close>












definition valid_operation :: "string \<Rightarrow> bool" where
  "valid_operation opn = (opn = ''replace'' \<or> opn = ''insert'' \<or> opn = ''delete'')"

definition positional_mode :: "change \<Rightarrow> bool" where
  "positional_mode c =
     (occurrence c = Undefined \<and> contextBefore c = None \<and> contextAfter c = None)"

definition clamped_operation :: "string \<Rightarrow> string \<Rightarrow> int \<Rightarrow> int \<Rightarrow> string \<Rightarrow> string" where
  "clamped_operation content opn s e txt =
     (let s' = clamp_index content s; e' = clamp_index content e
      in if opn = ''insert'' then take s' content @ txt @ drop s' content
         else if opn = ''delete'' then take s' content @ drop e' content
         else take s' content @ txt @ drop e' content)"

definition occurrence_accepted :: "occurrence_field \<Rightarrow> bool" where
  "occurrence_accepted occ =
     (case occ of Undefined \<Rightarrow> True | Null \<Rightarrow> False | Num n \<Rightarrow> n = - 1 \<or> 1 \<le> n)"

text \<open>
  A well-formed change object, field by field: an object whose operation is one of the
  three tags, whose range is an object with numeric start and end, whose text is a
  string, whose occurrence (when present) is the number \<open>-1\<close> or a number of at least
  1, and whose context fields (when present) are strings. A property that is present
  with the value \<^verbatim>\<open>undefined\<close> counts as absent.
\<close>

definition number_field :: "js_value option \<Rightarrow> bool" where
  "number_field p = (case p of Some (JNum n) \<Rightarrow> True | _ \<Rightarrow> False)"

definition string_field :: "js_value option \<Rightarrow> bool" where
  "string_field p = (case p of Some (JStr s) \<Rightarrow> True | _ \<Rightarrow> False)"

definition optional_string_field :: "js_value option \<Rightarrow> bool" where
  "optional_string_field p =
     (case p of None \<Rightarrow> True | Some JUndefined \<Rightarrow> True | Some (JStr s) \<Rightarrow> True
      | _ \<Rightarrow> False)"

definition operation_field :: "js_value option \<Rightarrow> bool" where
  "operation_field p = (case p of Some (JStr opn) \<Rightarrow> valid_operation opn | _ \<Rightarrow> False)"

definition range_field :: "js_value option \<Rightarrow> bool" where
  "range_field p =
     (case p of
        Some (JObj bounds) \<Rightarrow>
          number_field (map_of bounds ''start'') \<and> number_field (map_of bounds ''end'')
      | _ \<Rightarrow> False)"

definition occurrence_field_ok :: "js_value option \<Rightarrow> bool" where
  "occurrence_field_ok p =
     (case p of None \<Rightarrow> True | Some JUndefined \<Rightarrow> True
      | Some (JNum n) \<Rightarrow> n = - 1 \<or> 1 \<le> n | _ \<Rightarrow> False)"

definition well_formed_change :: "js_value \<Rightarrow> bool" where
  "well_formed_change v =
     (case v of
        JObj props \<Rightarrow>
          operation_field (map_of props ''operation'')
          \<and> range_field (map_of props ''range'')
          \<and> string_field (map_of props ''text'')
          \<and> occurrence_field_ok (map_of props ''occurrence'')
          \<and> optional_string_field (map_of props ''contextBefore'')
          \<and> optional_string_field (map_of props ''contextAfter'')
      | _ \<Rightarrow> False)"

definition with_range :: "int \<Rightarrow> int \<Rightarrow> (string \<times> js_value) list \<Rightarrow> js_value" where
  "with_range s e props =
     JObj ((''range'', JObj [(''start'', JNum s), (''end'', JNum e)]) # props)"

section \<open>Reference definitions for the document service\<close>

text \<open>
  Every snapshot of a document carries a version number below the working version of
  the document: the state of a store in which snapshots are created by publishing only.
\<close>

definition snapshots_below :: "database \<Rightarrow> bool" where
  "snapshots_below db =
     (\<forall>s \<in> set (versions db). \<forall>d \<in> set (documents db).
        snapshot_documentId s = doc_id d \<longrightarrow> snapshot_version s < version d)"

text \<open>
  A supplied precondition holds when it equals the stored value; one that is not
  supplied holds always.
\<close>

definition precondition_holds :: "'a option \<Rightarrow> 'a \<Rightarrow> bool" where
  "precondition_holds expected actual = (expected = None \<or> expected = Some actual)"

definition is_conflict :: "service_error + document \<Rightarrow> bool" where
  "is_conflict r = (r = Inl VersionConflict \<or> r = Inl ETagMismatch)"

text \<open>
  The store after the final write of a patch or a full update: the audit rows appended
  and the document row replaced.
\<close>

definition written :: "database \<Rightarrow> string \<Rightarrow> document \<Rightarrow> change_row list \<Rightarrow> database" where
  "written db ident updated rows =
     db\<lparr>changes := changes db @ rows,
        documents := update_where (documents db) ident (\<lambda>d. updated)\<rparr>"

text \<open>
  A store with one document at working version 1 and its snapshot of version 0, and a
  stand-in for the digest that returns its input.
\<close>

definition identity_digest :: "string \<Rightarrow> string" where
  "identity_digest s = s"

definition sample_db :: database where
  "sample_db =
     \<lparr>documents = [\<lparr>doc_id = ''d1'', content' = ''Hello'', version = 1, etag = ''aaaa''\<rparr>],
      versions = [\<lparr>snapshot_documentId = ''d1'', snapshot_version = 0,
                   snapshot_content = ''Hi''\<rparr>],
      changes = []\<rparr>"

section \<open>Reference definitions for the change buffer\<close>



definition keystroke :: change where
  "keystroke = positional ''insert'' 0 0 ''x''"


text \<open>
  Events other than a direct call of \<^verbatim>\<open>flush\<close> or \<^verbatim>\<open>forceFlush\<close>, and the
  state in which flushes are serialized: at most one request in flight, the in-progress
  flag set exactly while one is, no timer armed meanwhile, and every armed timer held
  in one of the two handle fields.
\<close>

fun timer_driven :: "event \<Rightarrow> bool" where
  "timer_driven Flush = False"
| "timer_driven ForceFlush = False"
| "timer_driven e = True"

definition serialized :: "runtime \<Rightarrow> bool" where
  "serialized rt =
     (length (inFlight rt) \<le> 1
      \<and> (isFlushInProgress (buffer rt) \<longleftrightarrow> inFlight rt \<noteq> [])
      \<and> (isFlushInProgress (buffer rt) \<longrightarrow> timers rt = [])
      \<and> fst ` set (timers rt)
           \<subseteq> set_option (idleTimeoutId (buffer rt))
             \<union> set_option (maxWaitTimeoutId (buffer rt)))"

section \<open>Reference definitions for the strategy selector\<close>

text \<open>
  The decision order as the specification lists it: an ordered list of rules, each a
  condition with the strategy it selects; the first rule whose condition holds decides,
  and the default is the positional (range-based) strategy.
\<close>

definition selected_text :: "ChangeContext \<Rightarrow> string" where
  "selected_text context =
     substring (documentContent context)
       (start (selection context)) (end' (selection context))"

definition at_least :: "int option \<Rightarrow> int \<Rightarrow> bool" where
  "at_least field bound = (case field of None \<Rightarrow> False | Some n \<Rightarrow> n \<ge> bound)"

definition strategy_rules :: "((ChangeContext \<Rightarrow> bool) \<times> ChangeStrategy) list" where
  "strategy_rules =
     [(\<lambda>context. selected_text context = [], RangeBased),
      (\<lambda>context. hasRecentRemoteChanges context = Some True, ContentBased),
      (\<lambda>context. at_least (queueLength context) 3, ContentBased),
      (\<lambda>context. at_least (timeSinceLastSync context) 2000, ContentBased),
      (\<lambda>context. countOccurrences (documentContent context) (selected_text context) > 1,
         ContentBased),
      (\<lambda>context. isCollaborative context = Some True, ContentBased)]"

fun first_match ::
  "((ChangeContext \<Rightarrow> bool) \<times> ChangeStrategy) list \<Rightarrow> ChangeContext \<Rightarrow> ChangeStrategy" where
  "first_match [] context = RangeBased"
| "first_match ((condition, strategy) # rules) context =
     (if condition context then strategy else first_match rules context)"

definition risky_insertion :: ChangeContext where
  "risky_insertion =
     \<lparr>documentContent = ''foo bar foo'', selection = \<lparr>start = 4, end' = 4\<rparr>,
      isCollaborative = Some True, hasRecentRemoteChanges = Some True,
      queueLength = Some 7, timeSinceLastSync = Some 5000\<rparr>"

definition remote_replace :: ChangeContext where
  "remote_replace =
     \<lparr>documentContent = ''foo bar foo'', selection = \<lparr>start = 4, end' = 7\<rparr>,
      isCollaborative = None, hasRecentRemoteChanges = Some True,
      queueLength = Some 0, timeSinceLastSync = Some 10\<rparr>"

section \<open>Facts about the string search\<close>
















lemma substring_0: "substring s 0 a = take (clamp_index s a) s"
  by (simp add: substring_def clamp_index_def Let_def)

lemma substring_from_drop: "substring_from s a = drop (clamp_index s a) s"
proof -
  have "clamp_index s a \<le> length s" "clamp_index s (int (length s)) = length s"
    by (simp_all add: clamp_index_def nat_le_iff)
  then show ?thesis
    by (simp add: substring_from_def substring_def Let_def min_absorb1 max_absorb2)
qed

lemma applyOperation_total:
  "valid_operation opn \<Longrightarrow> \<exists>updated. applyOperation content opn s e txt = Inr updated"
  by (auto simp: valid_operation_def applyOperation_def)

lemma applyChange_positional_total:
  assumes "valid_operation (operation c)" "positional_mode c"
  shows "\<exists>st'. applyChange st c = Inr st'"
proof -
  obtain updated where "applyOperation (fst st) (operation c)
      (start (range' c) + snd st) (end' (range' c) + snd st) (text' c) = Inr updated"
    using applyOperation_total [OF assms(1)] by blast
  with assms(2) show ?thesis
    by (simp add: applyChange_def positional_mode_def Let_def)
qed

lemma applyChanges_loop_positional_total:
  "\<forall>c \<in> set cs. valid_operation (operation c) \<and> positional_mode c \<Longrightarrow>
   \<exists>st'. applyChanges_loop st cs = Inr st'"
proof (induction cs arbitrary: st)
  case Nil
  then show ?case by simp
next
  case (Cons c cs)
  then obtain st1 where "applyChange st c = Inr st1"
    using applyChange_positional_total [of c st] by auto
  with Cons show ?case by simp
qed

lemma applyOperation_clamped_operation:
  "valid_operation opn \<Longrightarrow>
   applyOperation content opn s e txt = Inr (clamped_operation content opn s e txt)"
  by (auto simp: valid_operation_def applyOperation_def clamped_operation_def
        substring_0 substring_from_drop Let_def)

lemma change_of_js_inverse: "change_of_js (change_to_js c) = c"
  by (cases "occurrence c"; cases "contextBefore c"; cases "contextAfter c")
     (simp_all add: change_of_js_def change_to_js_def)

lemma typeof_number: "(typeof v = ''number'') = (\<exists>n. v = JNum n)"
  by (cases v) auto

lemma typeof_string: "(typeof v = ''string'') = (\<exists>s. v = JStr s)"
  by (cases v) auto

lemma number_field_iff:
  "number_field p = (typeof (case p of None \<Rightarrow> JUndefined | Some v \<Rightarrow> v) = ''number'')"
  by (auto simp: number_field_def typeof_number split: option.splits js_value.splits)

lemma string_field_iff:
  "string_field p = (typeof (case p of None \<Rightarrow> JUndefined | Some v \<Rightarrow> v) = ''string'')"
  by (auto simp: string_field_def typeof_string split: option.splits js_value.splits)

lemma optional_string_field_iff:
  "optional_string_field p =
     (\<not> ((case p of None \<Rightarrow> JUndefined | Some v \<Rightarrow> v) \<noteq> JUndefined
         \<and> typeof (case p of None \<Rightarrow> JUndefined | Some v \<Rightarrow> v) \<noteq> ''string''))"
  by (auto simp: optional_string_field_def split: option.splits js_value.splits)

lemma operation_field_iff:
  "operation_field p =
     ((case p of None \<Rightarrow> JUndefined | Some v \<Rightarrow> v)
        \<in> set [JStr ''replace'', JStr ''insert'', JStr ''delete''])"
  by (auto simp: operation_field_def valid_operation_def split: option.splits js_value.splits)

lemma range_field_iff:
  "range_field p =
     (truthy (case p of None \<Rightarrow> JUndefined | Some v \<Rightarrow> v)
      \<and> typeof (get_prop (case p of None \<Rightarrow> JUndefined | Some v \<Rightarrow> v) ''start'') = ''number''
      \<and> typeof (get_prop (case p of None \<Rightarrow> JUndefined | Some v \<Rightarrow> v) ''end'') = ''number'')"
  by (auto simp: range_field_def number_field_iff split: option.splits js_value.splits)

lemma occurrence_field_ok_iff:
  "occurrence_field_ok p =
     (\<not> ((case p of None \<Rightarrow> JUndefined | Some v \<Rightarrow> v) \<noteq> JUndefined
         \<and> (typeof (case p of None \<Rightarrow> JUndefined | Some v \<Rightarrow> v) \<noteq> ''number''
              \<or> ((case p of None \<Rightarrow> JUndefined | Some v \<Rightarrow> v) \<noteq> JNum (- 1)
                  \<and> less_than_one (case p of None \<Rightarrow> JUndefined | Some v \<Rightarrow> v)))))"
  by (auto simp: occurrence_field_ok_def split: option.splits js_value.splits)

lemma isValidChange_well_formed: "isValidChange v = well_formed_change v"
proof (cases v)
  case (JObj props)
  then show ?thesis
    unfolding isValidChange_def well_formed_change_def Let_def
    by (simp add: operation_field_iff range_field_iff string_field_iff
          occurrence_field_ok_iff optional_string_field_iff del: set_simps) blast
qed (simp_all add: isValidChange_def well_formed_change_def)

lemma with_range_independent:
  "isValidChange (with_range s e props) = isValidChange (with_range s' e' props)"
  by (simp add: isValidChange_well_formed well_formed_change_def with_range_def
        range_field_def number_field_def)

section \<open>Facts about the store\<close>

lemma findUnique_doc_id: "findUnique table ident = Some d \<Longrightarrow> doc_id d = ident \<and> d \<in> set table"
  unfolding findUnique_def by (auto simp: find_Some_iff)

lemma findUnique_update_where:
  "findUnique table ident = Some d \<Longrightarrow> doc_id u = ident \<Longrightarrow>
   findUnique (update_where table ident (\<lambda>x. u)) ident = Some u"
  unfolding findUnique_def update_where_def
  by (induction table) (auto split: if_splits)

lemma set_update_where:
  "x \<in> set (update_where table ident (\<lambda>d. u)) \<Longrightarrow> x = u \<or> (x \<in> set table \<and> doc_id x \<noteq> ident)"
  unfolding update_where_def by auto

lemma snapshot_exists_iff:
  "snapshot_exists table ident ver
     = (\<exists>s \<in> set table. snapshot_documentId s = ident \<and> snapshot_version s = ver)"
  by (simp add: snapshot_exists_def list_ex_iff)

lemma snapshots_below_free:
  assumes "snapshots_below db" "findUnique (documents db) ident = Some doc"
  shows "\<not> snapshot_exists (versions db) ident (version doc)"
  using assms findUnique_doc_id [OF assms(2)]
  by (fastforce simp: snapshots_below_def snapshot_exists_iff)

section \<open>Facts about the change buffer\<close>











lemma serialized_new_buffer: "serialized (new_buffer ident now)"
  by (simp add: serialized_def new_buffer_def)

lemma serialized_addChange: "serialized rt \<Longrightarrow> serialized (addChange c s rt)"
  unfolding serialized_def addChange_def Let_def clearTimeout_def setTimeout_def
  by (auto split: option.splits)

lemma serialized_setters:
  "serialized rt \<Longrightarrow> serialized (setETag tag rt)"
  "serialized rt \<Longrightarrow> serialized (setLastSavedContent s rt)"
  "serialized rt \<Longrightarrow> serialized (setRemoteChangesDetected b rt)"
  by (simp_all add: serialized_def setETag_def setLastSavedContent_def
        setRemoteChangesDetected_def)

lemma serialized_destroy: "serialized rt \<Longrightarrow> serialized (destroy rt)"
  unfolding serialized_def destroy_def Let_def clearTimeout_def
  by (auto split: option.splits)

lemma flush_idle:
  assumes "serialized rt" "\<not> isFlushInProgress (buffer rt)"
  shows "serialized (flush rt)"
proof -
  from assms have e: "inFlight rt = []" by (simp add: serialized_def)
  from assms(1) have s: "fst ` set (timers rt)
           \<subseteq> set_option (idleTimeoutId (buffer rt))
             \<union> set_option (maxWaitTimeoutId (buffer rt))" by (simp add: serialized_def)
  show ?thesis
    using e s assms(2)
    unfolding serialized_def flush_def Let_def clearTimeout_def
    by (cases "idleTimeoutId (buffer rt)"; cases "maxWaitTimeoutId (buffer rt)")
       (auto simp: filter_empty_conv)
qed

lemma serialized_timer:
  assumes "serialized rt"
  shows "serialized (step (TimerFires handle) rt)"
proof (cases "handle \<in> fst ` set (timers rt)")
  case False
  with assms show ?thesis by simp
next
  case True
  then have "timers rt \<noteq> []" by auto
  with assms have n: "\<not> isFlushInProgress (buffer rt)" by (auto simp: serialized_def)
  let ?rt = "rt\<lparr>timers := filter (\<lambda>t. fst t \<noteq> handle) (timers rt)\<rparr>"
  have "serialized ?rt" using assms n by (auto simp: serialized_def)
  moreover have "\<not> isFlushInProgress (buffer ?rt)" using n by simp
  ultimately have "serialized (flush ?rt)" by (rule flush_idle)
  with True show ?thesis by simp
qed

lemma serialized_response:
  assumes "serialized rt"
  shows "serialized (step (Response i result) rt)"
proof (cases "i < length (inFlight rt)")
  case False
  with assms show ?thesis by simp
next
  case True
  with assms have i: "i = 0" "length (inFlight rt) = 1" "isFlushInProgress (buffer rt)"
    "timers rt = []"
    by (auto simp: serialized_def)
  then obtain r where r: "inFlight rt = [r]" by (cases "inFlight rt") auto
  show ?thesis
  proof (cases result)
    case (Fulfilled updatedDoc now)
    with i r show ?thesis
      by (auto simp: serialized_def flush_fulfilled_def Let_def setTimeout_def)
  next
    case (Rejected message)
    with i r show ?thesis
      by (auto simp: serialized_def flush_rejected_def Let_def)
  qed
qed

lemma serialized_step: "serialized rt \<Longrightarrow> timer_driven e \<Longrightarrow> serialized (step e rt)"
proof (cases e)
  case (AddChange c s)
  assume "serialized rt"
  with AddChange show ?thesis by (simp add: serialized_addChange)
next
  case (TimerFires handle)
  assume "serialized rt"
  with TimerFires show ?thesis using serialized_timer by blast
next
  case (Response i result)
  assume "serialized rt"
  with Response show ?thesis using serialized_response by blast
qed (simp_all add: serialized_setters serialized_destroy)

lemma serialized_run:
  "serialized rt \<Longrightarrow> list_all timer_driven es \<Longrightarrow> serialized (run es rt)"
  by (induction es arbitrary: rt) (simp_all add: serialized_step)

lemma timer_driven_flushes_never_overlap:
  "list_all timer_driven es \<Longrightarrow> length (inFlight (run es (new_buffer ident now))) \<le> 1"
  using serialized_run [OF serialized_new_buffer, of es ident now]
  by (simp add: serialized_def)

section \<open>Occurrence and context mode\<close>



section \<open>Positional mode\<close>

text \<open>
  Claim C2. A change with no occurrence and no context field is resolved positionally:
  the operation is applied at \<open>range.start + cumulativeOffset\<close> and
  \<open>range.end + cumulativeOffset\<close>, and the change of the length of the whole text
  is added to the cumulative offset. Applying Replace([4,9], "slow"),
  Insert([10,10], "lazy "), Delete([18,19], "") in sequence to "The quick brown fox"
  yields "The slow lazy brown fo".
\<close>

theorem positional_mode_cumulative_offset:
  "(occurrence c = Undefined \<and> contextBefore c = None \<and> contextAfter c = None \<longrightarrow>
      applyChange (content, off) c =
        (case applyOperation content (operation c)
                (start (range' c) + off) (end' (range' c) + off) (text' c) of
           Inl e \<Rightarrow> Inl e
         | Inr updated \<Rightarrow>
             Inr (updated, off + (int (length updated) - int (length content)))))
   \<and> applyChanges ''The quick brown fox''
         [positional ''replace'' 4 9 ''slow'',
          positional ''insert'' 10 10 ''lazy '',
          positional ''delete'' 18 19 '''']
       = Inr ''The slow lazy brown fo''"
proof
  show "occurrence c = Undefined \<and> contextBefore c = None \<and> contextAfter c = None \<longrightarrow>
      applyChange (content, off) c =
        (case applyOperation content (operation c)
                (start (range' c) + off) (end' (range' c) + off) (text' c) of
           Inl e \<Rightarrow> Inl e
         | Inr updated \<Rightarrow>
             Inr (updated, off + (int (length updated) - int (length content))))"
    by (simp add: applyChange_def Let_def)
  show "applyChanges ''The quick brown fox''
         [positional ''replace'' 4 9 ''slow'',
          positional ''insert'' 10 10 ''lazy '',
          positional ''delete'' 18 19 '''']
       = Inr ''The slow lazy brown fo''"
    by code_simp
qed

theorem positional_mode_cumulative_offset_witness:
  "applyChange (''The quick brown fox'', 0) (positional ''replace'' 4 9 ''slow'')
     = Inr (''The slow brown fox'', - 1)
   \<and> applyChange (''The slow brown fox'', - 1) (positional ''insert'' 10 10 ''lazy '')
     = Inr (''The slow lazy brown fox'', 4)
   \<and> applyChange (''The slow lazy brown fox'', 4) (positional ''delete'' 18 19 '''')
     = Inr (''The slow lazy brown fo'', 3)"
  using positional_mode_cumulative_offset
          [of "positional ''replace'' 4 9 ''slow''" "''The quick brown fox''" 0]
        positional_mode_cumulative_offset
          [of "positional ''insert'' 10 10 ''lazy ''" "''The slow brown fox''" "- 1"]
        positional_mode_cumulative_offset
          [of "positional ''delete'' 18 19 ''''" "''The slow lazy brown fox''" 4]
  by (simp add: positional_def applyOperation_def substring_def substring_from_def
        clamp_index_def Let_def)

section \<open>Failures of occurrence resolution\<close>




section \<open>The concurrency guard\<close>

text \<open>
  Claim C4, as stated: for every patch request a supplied expectedVersion that differs
  from the document's version fails with VersionConflict, and a supplied expectedETag
  that differs from the document's fingerprint fails with FingerprintMismatch. The
  checks run in a fixed order and the first failure decides. With both preconditions
  stale the failure is the version conflict, not the fingerprint mismatch; and a request
  holding a malformed change fails validation before any precondition is looked at.
\<close>

theorem precondition_guard_counterexample:
  "findUnique (documents sample_db) ''d1''
     = Some \<lparr>doc_id = ''d1'', content' = ''Hello'', version = 1, etag = ''aaaa''\<rparr>
   \<and> applyChangesToDocument identity_digest ''T'' sample_db ''d1'' []
         (Some 0) (Some ''bbbb'') = (Inl VersionConflict, sample_db)
   \<and> fst (applyChangesToDocument identity_digest ''T'' sample_db ''d1'' []
         (Some 0) (Some ''bbbb'')) \<noteq> Inl ETagMismatch
   \<and> fst (updateDocument identity_digest ''T'' sample_db ''d1'' \<lparr>dto_content = Some ''Bye''\<rparr>
         (Some 0) (Some ''bbbb'')) \<noteq> Inl ETagMismatch
   \<and> \<not> isValidChange JNull
   \<and> fst (applyChangesToDocument identity_digest ''T'' sample_db ''d1'' [JNull]
         (Some 0) None) \<noteq> Inl VersionConflict"
  by (simp add: applyChangesToDocument_def updateDocument_def sample_db_def findUnique_def
        isValidChange_def)

text \<open>
  Claim C4, amended. For a patch request on an existing document whose changes all pass
  validation, and for a full update of an existing document: a supplied expectedVersion
  that differs from the document's version fails with VersionConflict; otherwise a
  supplied expectedETag that differs from the document's fingerprint fails with
  ETagMismatch (the specification's FingerprintMismatch); the store is unchanged on
  either failure. When every supplied precondition matches, and so when none is
  supplied, no conflict is raised and the write proceeds: the patch writes the result of
  applying the changes (or fails with status 500 when application raises), the update
  writes the new content.
\<close>

theorem precondition_guard:
  assumes "findUnique (documents db) ident = Some doc" "list_all isValidChange changeList"
  shows
    "(let patch = applyChangesToDocument sha256_hex now db ident changeList
                    expectedVersion expectedETag;
          update = updateDocument sha256_hex now db ident data expectedVersion expectedETag
      in (\<not> precondition_holds expectedVersion (version doc) \<longrightarrow>
            patch = (Inl VersionConflict, db) \<and> update = (Inl VersionConflict, db))
       \<and> (precondition_holds expectedVersion (version doc)
          \<and> \<not> precondition_holds expectedETag (etag doc) \<longrightarrow>
            patch = (Inl ETagMismatch, db) \<and> update = (Inl ETagMismatch, db))
       \<and> (precondition_holds expectedVersion (version doc)
          \<and> precondition_holds expectedETag (etag doc) \<longrightarrow>
            \<not> is_conflict (fst patch) \<and> \<not> is_conflict (fst update)
            \<and> patch =
                (case applyChanges (content' doc) (map change_of_js changeList) of
                   Inl e \<Rightarrow> (Inl ServerError, db)
                 | Inr updatedContent \<Rightarrow>
                     (let updated =
                            doc\<lparr>content' := updatedContent,
                                etag := generateETag sha256_hex updatedContent
                                          (version doc) now\<rparr>
                      in (Inr updated,
                          written db ident updated
                            (map (\<lambda>v. change_row_of ident (change_of_js v)) changeList))))
            \<and> update =
                (let newContent =
                       (case dto_content data of Some c \<Rightarrow> c | None \<Rightarrow> content' doc);
                     updated =
                       doc\<lparr>content' := newContent,
                           etag := generateETag sha256_hex newContent (version doc) now\<rparr>
                 in (Inr updated, written db ident updated []))))
     \<and> (expectedVersion = None \<and> expectedETag = None \<longrightarrow>
          precondition_holds expectedVersion (version doc)
          \<and> precondition_holds expectedETag (etag doc))"
  using assms
  by (cases expectedVersion; cases expectedETag)
     (auto simp: Let_def precondition_holds_def is_conflict_def written_def
        applyChangesToDocument_def updateDocument_def split: sum.splits)

theorem precondition_guard_witness:
  "applyChangesToDocument identity_digest ''T'' sample_db ''d1'' []
      (Some 0) (Some ''aaaa'') = (Inl VersionConflict, sample_db)
   \<and> applyChangesToDocument identity_digest ''T'' sample_db ''d1'' []
      (Some 1) (Some ''bbbb'') = (Inl ETagMismatch, sample_db)
   \<and> updateDocument identity_digest ''T'' sample_db ''d1'' \<lparr>dto_content = Some ''Bye''\<rparr>
      None (Some ''bbbb'') = (Inl ETagMismatch, sample_db)
   \<and> fst (applyChangesToDocument identity_digest ''T'' sample_db ''d1''
            [change_to_js (positional ''insert'' 5 5 ''!'')] None None)
       = Inr \<lparr>doc_id = ''d1'', content' = ''Hello!'', version = 1, etag = ''Hello!:1:T''\<rparr>"
proof -
  let ?doc = "\<lparr>doc_id = ''d1'', content' = ''Hello'', version = 1, etag = ''aaaa''\<rparr>"
  let ?ins = "[change_to_js (positional ''insert'' 5 5 ''!'')]"
  have f: "findUnique (documents sample_db) ''d1'' = Some ?doc"
    by (simp add: findUnique_def sample_db_def)
  have v: "list_all isValidChange []" "list_all isValidChange ?ins"
    by (simp_all add: isValidChange_def change_to_js_def positional_def)
  have p: "\<not> precondition_holds (Some 0) (version ?doc)"
    "precondition_holds (Some 1) (version ?doc)"
    "precondition_holds None (version ?doc)"
    "precondition_holds None (etag ?doc)"
    "precondition_holds (Some ''aaaa'') (etag ?doc)"
    "\<not> precondition_holds (Some ''bbbb'') (etag ?doc)"
    by (simp_all add: precondition_holds_def)
  have a: "applyChanges ''Hello'' (map change_of_js ?ins) = Inr ''Hello!''"
    by code_simp
  have g: "generateETag identity_digest ''Hello!'' 1 ''T'' = ''Hello!:1:T''"
    by code_simp
  have 1: "applyChangesToDocument identity_digest ''T'' sample_db ''d1'' []
      (Some 0) (Some ''aaaa'') = (Inl VersionConflict, sample_db)"
    using precondition_guard [OF f v(1), of identity_digest "''T''" "Some 0" "Some ''aaaa''"] p
    by (simp add: Let_def)
  have 2: "applyChangesToDocument identity_digest ''T'' sample_db ''d1'' []
      (Some 1) (Some ''bbbb'') = (Inl ETagMismatch, sample_db)"
    using precondition_guard [OF f v(1), of identity_digest "''T''" "Some 1" "Some ''bbbb''"] p
    by (simp add: Let_def)
  have 3: "updateDocument identity_digest ''T'' sample_db ''d1'' \<lparr>dto_content = Some ''Bye''\<rparr>
      None (Some ''bbbb'') = (Inl ETagMismatch, sample_db)"
    using precondition_guard [OF f v(1), of identity_digest "''T''" None "Some ''bbbb''"
        "\<lparr>dto_content = Some ''Bye''\<rparr>"] p
    by (simp add: Let_def)
  have 4: "fst (applyChangesToDocument identity_digest ''T'' sample_db ''d1'' ?ins None None)
       = Inr \<lparr>doc_id = ''d1'', content' = ''Hello!'', version = 1, etag = ''Hello!:1:T''\<rparr>"
    using precondition_guard [OF f v(2), of identity_digest "''T''" None None] p
    by (simp add: Let_def a g del: list.map)
  from 1 2 3 4 show ?thesis by simp
qed

section \<open>Publishing\<close>

text \<open>
  Claim C5. Publishing a document creates exactly one snapshot carrying the version and
  the content the document had before, sets the version to the old version plus one,
  recomputes the fingerprint against the new version and leaves the content unchanged.
  Patch application and full update leave the version unchanged while recomputing the
  fingerprint, and create no snapshot.
\<close>

theorem publish_snapshots_and_increments:
  assumes "snapshots_below db" "findUnique (documents db) ident = Some doc"
  shows
    "(let published = doc\<lparr>version := version doc + 1,
                           etag := generateETag sha256_hex (content' doc) (version doc + 1) now\<rparr>;
          db' = snd (publishDocument sha256_hex now db ident)
      in fst (publishDocument sha256_hex now db ident) = Inr published
       \<and> versions db' =
           versions db @ [\<lparr>snapshot_documentId = ident, snapshot_version = version doc,
                           snapshot_content = content' doc\<rparr>]
       \<and> findUnique (documents db') ident = Some published
       \<and> version published = version doc + 1
       \<and> content' published = content' doc
       \<and> snapshots_below db')
     \<and> (\<forall>patched. fst (applyChangesToDocument sha256_hex now db ident changeList
                          expectedVersion expectedETag) = Inr patched \<longrightarrow>
           version patched = version doc
           \<and> etag patched = generateETag sha256_hex (content' patched) (version doc) now
           \<and> versions (snd (applyChangesToDocument sha256_hex now db ident changeList
                          expectedVersion expectedETag)) = versions db
           \<and> findUnique (documents (snd (applyChangesToDocument sha256_hex now db ident
                          changeList expectedVersion expectedETag))) ident = Some patched)
     \<and> (\<forall>replaced. fst (updateDocument sha256_hex now db ident data
                          expectedVersion expectedETag) = Inr replaced \<longrightarrow>
           version replaced = version doc
           \<and> etag replaced = generateETag sha256_hex (content' replaced) (version doc) now
           \<and> versions (snd (updateDocument sha256_hex now db ident data
                          expectedVersion expectedETag)) = versions db
           \<and> findUnique (documents (snd (updateDocument sha256_hex now db ident data
                          expectedVersion expectedETag))) ident = Some replaced)"
proof (intro conjI)
  define published where "published = doc\<lparr>version := version doc + 1,
      etag := generateETag sha256_hex (content' doc) (version doc + 1) now\<rparr>"
  have free: "\<not> snapshot_exists (versions db) ident (version doc)"
    using snapshots_below_free [OF assms] .
  have idd: "doc_id doc = ident" "doc \<in> set (documents db)"
    using findUnique_doc_id [OF assms(2)] by auto
  have p: "publishDocument sha256_hex now db ident =
      (Inr published,
       db\<lparr>versions := versions db @ [\<lparr>snapshot_documentId = ident,
              snapshot_version = version doc, snapshot_content = content' doc\<rparr>],
          documents := update_where (documents db) ident (\<lambda>d. published)\<rparr>)"
    using assms(2) free by (simp add: publishDocument_def Let_def published_def)
  have f: "findUnique (update_where (documents db) ident (\<lambda>d. published)) ident = Some published"
    using findUnique_update_where [OF assms(2), of published] idd by (simp add: published_def)
  have inv: "snapshots_below (snd (publishDocument sha256_hex now db ident))"
    unfolding snapshots_below_def
  proof (intro ballI impI)
    fix s d
    assume s: "s \<in> set (versions (snd (publishDocument sha256_hex now db ident)))"
      and d: "d \<in> set (documents (snd (publishDocument sha256_hex now db ident)))"
      and e: "snapshot_documentId s = doc_id d"
    from d have d': "d = published \<or> (d \<in> set (documents db) \<and> doc_id d \<noteq> ident)"
      using set_update_where [of d "documents db" ident published] by (simp add: p)
    from s have s': "s \<in> set (versions db) \<or> s = \<lparr>snapshot_documentId = ident,
              snapshot_version = version doc, snapshot_content = content' doc\<rparr>"
      by (auto simp: p)
    show "snapshot_version s < version d"
    proof (cases "d = published")
      case True
      from s' show ?thesis
      proof
        assume "s \<in> set (versions db)"
        with assms(1) idd e True have "snapshot_version s < version doc"
          by (auto simp: snapshots_below_def published_def)
        then show ?thesis using True by (simp add: published_def)
      next
        assume "s = \<lparr>snapshot_documentId = ident,
              snapshot_version = version doc, snapshot_content = content' doc\<rparr>"
        then show ?thesis using True by (simp add: published_def)
      qed
    next
      case False
      with d' have dd: "d \<in> set (documents db)" "doc_id d \<noteq> ident" by auto
      with s' e have "s \<in> set (versions db)" by auto
      with assms(1) dd e show ?thesis by (auto simp: snapshots_below_def)
    qed
  qed
  show "let published = doc\<lparr>version := version doc + 1,
                           etag := generateETag sha256_hex (content' doc) (version doc + 1) now\<rparr>;
          db' = snd (publishDocument sha256_hex now db ident)
      in fst (publishDocument sha256_hex now db ident) = Inr published
       \<and> versions db' =
           versions db @ [\<lparr>snapshot_documentId = ident, snapshot_version = version doc,
                           snapshot_content = content' doc\<rparr>]
       \<and> findUnique (documents db') ident = Some published
       \<and> version published = version doc + 1
       \<and> content' published = content' doc
       \<and> snapshots_below db'"
    using inv f unfolding Let_def published_def [symmetric]
    by (simp add: p) (simp add: published_def)
next
  have idd: "doc_id doc = ident" using findUnique_doc_id [OF assms(2)] by auto
  show "\<forall>patched. fst (applyChangesToDocument sha256_hex now db ident changeList
                          expectedVersion expectedETag) = Inr patched \<longrightarrow>
           version patched = version doc
           \<and> etag patched = generateETag sha256_hex (content' patched) (version doc) now
           \<and> versions (snd (applyChangesToDocument sha256_hex now db ident changeList
                          expectedVersion expectedETag)) = versions db
           \<and> findUnique (documents (snd (applyChangesToDocument sha256_hex now db ident
                          changeList expectedVersion expectedETag))) ident = Some patched"
    using assms(2) idd findUnique_update_where [OF assms(2)]
    by (auto simp: applyChangesToDocument_def Let_def split: if_splits sum.splits)
next
  have idd: "doc_id doc = ident" using findUnique_doc_id [OF assms(2)] by auto
  show "\<forall>replaced. fst (updateDocument sha256_hex now db ident data
                          expectedVersion expectedETag) = Inr replaced \<longrightarrow>
           version replaced = version doc
           \<and> etag replaced = generateETag sha256_hex (content' replaced) (version doc) now
           \<and> versions (snd (updateDocument sha256_hex now db ident data
                          expectedVersion expectedETag)) = versions db
           \<and> findUnique (documents (snd (updateDocument sha256_hex now db ident data
                          expectedVersion expectedETag))) ident = Some replaced"
    using assms(2) idd findUnique_update_where [OF assms(2)]
    by (auto simp: updateDocument_def Let_def split: if_splits option.splits)
qed


theorem publish_snapshots_and_increments_witness:
  "snapshots_below sample_db
   \<and> fst (publishDocument identity_digest ''T'' sample_db ''d1'')
       = Inr \<lparr>doc_id = ''d1'', content' = ''Hello'', version = 2, etag = ''Hello:2:T''\<rparr>
   \<and> versions (snd (publishDocument identity_digest ''T'' sample_db ''d1''))
       = [\<lparr>snapshot_documentId = ''d1'', snapshot_version = 0, snapshot_content = ''Hi''\<rparr>,
          \<lparr>snapshot_documentId = ''d1'', snapshot_version = 1,
            snapshot_content = ''Hello''\<rparr>]
   \<and> fst (applyChangesToDocument identity_digest ''T'' sample_db ''d1''
            [change_to_js (positional ''insert'' 5 5 ''!'')] None None)
       = Inr \<lparr>doc_id = ''d1'', content' = ''Hello!'', version = 1, etag = ''Hello!:1:T''\<rparr>"
proof -
  let ?doc = "\<lparr>doc_id = ''d1'', content' = ''Hello'', version = 1, etag = ''aaaa''\<rparr>"
  have i: "snapshots_below sample_db"
    by (simp add: snapshots_below_def sample_db_def)
  have f: "findUnique (documents sample_db) ''d1'' = Some ?doc"
    by (simp add: findUnique_def sample_db_def)
  have g: "generateETag identity_digest ''Hello'' 2 ''T'' = ''Hello:2:T''"
    by code_simp
  have a: "fst (applyChangesToDocument identity_digest ''T'' sample_db ''d1''
            [change_to_js (positional ''insert'' 5 5 ''!'')] None None)
       = Inr \<lparr>doc_id = ''d1'', content' = ''Hello!'', version = 1, etag = ''Hello!:1:T''\<rparr>"
    by code_simp
  from publish_snapshots_and_increments [OF i f, of identity_digest "''T''"]
  have "fst (publishDocument identity_digest ''T'' sample_db ''d1'')
       = Inr \<lparr>doc_id = ''d1'', content' = ''Hello'', version = 2, etag = ''Hello:2:T''\<rparr>"
    "versions (snd (publishDocument identity_digest ''T'' sample_db ''d1''))
       = [\<lparr>snapshot_documentId = ''d1'', snapshot_version = 0, snapshot_content = ''Hi''\<rparr>,
          \<lparr>snapshot_documentId = ''d1'', snapshot_version = 1,
            snapshot_content = ''Hello''\<rparr>]"
    by (simp_all add: Let_def g) (simp add: sample_db_def)
  with i a show ?thesis by simp
qed

section \<open>Coalescing\<close>



section \<open>Order of the strategy rules\<close>

text \<open>
  Claim C7. The strategy selector evaluates its ordered rules with first-match-wins
  semantics. An empty selected range gives the positional (range-based) strategy
  whatever the other fields hold; for a non-empty selection, recent remote changes give
  the content-addressed strategy before the queue length (at least 3), staleness (at
  least 2000 ms), duplicate occurrence and collaborative rules are consulted.
\<close>

theorem strategy_first_match_wins:
  "determineChangeStrategy context = first_match strategy_rules context
   \<and> (start (selection context) = end' (selection context) \<longrightarrow>
        determineChangeStrategy context = RangeBased)
   \<and> (selected_text context \<noteq> [] \<and> hasRecentRemoteChanges context = Some True \<longrightarrow>
        determineChangeStrategy context = ContentBased)
   \<and> (0 \<le> start (selection context)
        \<and> start (selection context) < end' (selection context)
        \<and> end' (selection context) \<le> int (length (documentContent context))
        \<and> hasRecentRemoteChanges context = Some True \<longrightarrow>
        determineChangeStrategy context = ContentBased)"
proof (intro conjI impI)
  have q: "(truthy_number (queueLength context)
            \<and> the (queueLength context) \<ge> QUEUE_LENGTH_THRESHOLD)
           = at_least (queueLength context) 3"
    by (cases "queueLength context") (auto simp: at_least_def QUEUE_LENGTH_THRESHOLD_def)
  have t: "(truthy_number (timeSinceLastSync context)
            \<and> the (timeSinceLastSync context) \<ge> STALE_POSITION_THRESHOLD_MS)
           = at_least (timeSinceLastSync context) 2000"
    by (cases "timeSinceLastSync context")
       (auto simp: at_least_def STALE_POSITION_THRESHOLD_MS_def)
  have f: "\<And>b. truthy_flag b = (b = Some True)"
  proof -
    fix b show "truthy_flag b = (b = Some True)" by (cases b) auto
  qed
  show "determineChangeStrategy context = first_match strategy_rules context"
    unfolding determineChangeStrategy_def strategy_rules_def Let_def
    by (simp add: q t f selected_text_def DUPLICATE_THRESHOLD_def)
next
  assume "start (selection context) = end' (selection context)"
  then show "determineChangeStrategy context = RangeBased"
    by (simp add: determineChangeStrategy_def substring_def Let_def)
next
  assume "selected_text context \<noteq> [] \<and> hasRecentRemoteChanges context = Some True"
  then show "determineChangeStrategy context = ContentBased"
    by (simp add: determineChangeStrategy_def selected_text_def Let_def)
next
  assume a: "0 \<le> start (selection context)
        \<and> start (selection context) < end' (selection context)
        \<and> end' (selection context) \<le> int (length (documentContent context))
        \<and> hasRecentRemoteChanges context = Some True"
  then have "substring (documentContent context)
       (start (selection context)) (end' (selection context)) \<noteq> []"
    by (auto simp: substring_def clamp_index_def Let_def)
  with a show "determineChangeStrategy context = ContentBased"
    by (simp add: determineChangeStrategy_def Let_def)
qed

theorem strategy_first_match_wins_witness:
  "start (selection risky_insertion) = end' (selection risky_insertion)
   \<and> determineChangeStrategy risky_insertion = RangeBased
   \<and> selected_text remote_replace = ''bar''
   \<and> hasRecentRemoteChanges remote_replace = Some True
   \<and> determineChangeStrategy remote_replace = ContentBased
   \<and> first_match strategy_rules remote_replace = ContentBased"
proof -
  have s: "selected_text remote_replace = ''bar''"
    by (simp add: selected_text_def remote_replace_def substring_def clamp_index_def)
  have e: "start (selection risky_insertion) = end' (selection risky_insertion)"
    "hasRecentRemoteChanges remote_replace = Some True"
    by (simp_all add: risky_insertion_def remote_replace_def)
  from strategy_first_match_wins [of risky_insertion] e
  have 1: "determineChangeStrategy risky_insertion = RangeBased" by blast
  have n: "selected_text remote_replace \<noteq> []" using s by simp
  from strategy_first_match_wins [of remote_replace] n e(2)
  have 2: "determineChangeStrategy remote_replace = ContentBased" by blast
  from strategy_first_match_wins [of remote_replace] 2
  have 3: "first_match strategy_rules remote_replace = ContentBased" by argo
  from 1 2 3 s e show ?thesis by simp
qed

section \<open>Validation and the order of the range\<close>

text \<open>
  Claim C8, as stated: every change satisfies \<open>range.start \<le> range.end\<close>, the
  validator returning false for any change whose start exceeds its end. The validator
  compares the two numbers nowhere: a replace with range [5, 2] is accepted.
\<close>

theorem validation_ignores_range_order_counterexample:
  "end' (range' (positional ''replace'' 5 2 ''x''))
     < start (range' (positional ''replace'' 5 2 ''x''))
   \<and> isValidChange (change_to_js (positional ''replace'' 5 2 ''x''))
   \<and> isValidChange
        (JObj [(''operation'', JStr ''replace''),
               (''range'', JObj [(''start'', JNum 5), (''end'', JNum 2)]),
               (''text'', JStr ''x'')])"
  by (simp add: positional_def change_to_js_def isValidChange_def)

text \<open>
  Claim C8, amended. The validator does not require \<open>range.start \<le> range.end\<close>: its
  verdict does not depend on the values of the two numbers, so a change whose start
  exceeds its end is accepted whenever it is otherwise well-formed. The theorem gives
  the verdict exactly, for every value the validator can be handed: it accepts the
  well-formed change objects and nothing else; the verdict on an object is the same for
  every pair of numbers in its range; and for a change of the declared type it is
  decided by the operation tag and the occurrence alone.
\<close>

theorem validation_ignores_range_order:
  "isValidChange v = well_formed_change v
   \<and> isValidChange (with_range s e props) = isValidChange (with_range s' e' props)
   \<and> isValidChange (change_to_js c)
       = (valid_operation (operation c) \<and> occurrence_accepted (occurrence c))
   \<and> isValidChange (change_to_js (c\<lparr>range' := r\<rparr>)) = isValidChange (change_to_js c)"
proof -
  have a: "\<And>c. isValidChange (change_to_js c)
     = (valid_operation (operation c) \<and> occurrence_accepted (occurrence c))"
  proof -
    fix c :: change
    show "isValidChange (change_to_js c)
     = (valid_operation (operation c) \<and> occurrence_accepted (occurrence c))"
      by (cases "occurrence c"; cases "contextBefore c"; cases "contextAfter c")
         (auto simp: isValidChange_def change_to_js_def valid_operation_def
            occurrence_accepted_def Let_def)
  qed
  have b: "isValidChange (with_range s e props) = isValidChange (with_range s' e' props)"
    by (rule with_range_independent)
  have d: "isValidChange (change_to_js (c\<lparr>range' := r\<rparr>)) = isValidChange (change_to_js c)"
    by (simp add: a)
  have w: "isValidChange v = well_formed_change v"
    by (rule isValidChange_well_formed)
  from w b a [of c] d show ?thesis by blast
qed

theorem validation_ignores_range_order_witness:
  "isValidChange (with_range 7 3 [(''operation'', JStr ''delete''), (''text'', JStr [])])
   \<and> isValidChange (with_range 3 7 [(''operation'', JStr ''delete''), (''text'', JStr [])])
   \<and> \<not> isValidChange
          (JObj [(''operation'', JStr ''delete''),
                 (''range'', JObj [(''start'', JStr ''7''), (''end'', JNum 3)]),
                 (''text'', JStr [])])
   \<and> \<not> isValidChange
          (JObj [(''operation'', JStr ''delete''),
                 (''range'', JObj [(''start'', JNum 3), (''end'', JNum 7)]),
                 (''text'', JNum 0)])
   \<and> \<not> isValidChange
          (JObj [(''operation'', JStr ''delete''),
                 (''range'', JObj [(''start'', JNum 3), (''end'', JNum 7)]),
                 (''text'', JStr []), (''contextBefore'', JNum 1)])
   \<and> isValidChange (change_to_js (positional ''delete'' 7 3 []))
   \<and> \<not> isValidChange (change_to_js ((positional ''delete'' 3 7 [])\<lparr>occurrence := Num 0\<rparr>))"
proof -
  let ?props = "[(''operation'', JStr ''delete''), (''text'', JStr [])]"
  let ?bad_start = "JObj [(''operation'', JStr ''delete''),
                 (''range'', JObj [(''start'', JStr ''7''), (''end'', JNum 3)]),
                 (''text'', JStr [])]"
  let ?bad_text = "JObj [(''operation'', JStr ''delete''),
                 (''range'', JObj [(''start'', JNum 3), (''end'', JNum 7)]),
                 (''text'', JNum 0)]"
  let ?bad_context = "JObj [(''operation'', JStr ''delete''),
                 (''range'', JObj [(''start'', JNum 3), (''end'', JNum 7)]),
                 (''text'', JStr []), (''contextBefore'', JNum 1)]"
  have w: "well_formed_change (with_range 3 7 ?props)"
    "\<not> well_formed_change ?bad_start" "\<not> well_formed_change ?bad_text"
    "\<not> well_formed_change ?bad_context"
    by (simp_all add: well_formed_change_def with_range_def operation_field_def
          range_field_def number_field_def string_field_def occurrence_field_ok_def
          optional_string_field_def valid_operation_def)
  have 1: "isValidChange (with_range 3 7 ?props)"
    using validation_ignores_range_order [of "with_range 3 7 ?props"] w(1) by blast
  have 2: "isValidChange (with_range 7 3 ?props)"
    using validation_ignores_range_order [of JNull 7 3 ?props 3 7] 1 by blast
  have 3: "\<not> isValidChange ?bad_start"
    using validation_ignores_range_order [of ?bad_start] w(2) by blast
  have 4: "\<not> isValidChange ?bad_text"
    using validation_ignores_range_order [of ?bad_text] w(3) by blast
  have 5: "\<not> isValidChange ?bad_context"
    using validation_ignores_range_order [of ?bad_context] w(4) by blast
  have 6: "isValidChange (change_to_js (positional ''delete'' 7 3 []))"
    "\<not> isValidChange (change_to_js ((positional ''delete'' 3 7 [])\<lparr>occurrence := Num 0\<rparr>))"
    using validation_ignores_range_order [of JNull 0 0 "[]" 0 0 "positional ''delete'' 7 3 []"]
      validation_ignores_range_order [of JNull 0 0 "[]" 0 0
        "(positional ''delete'' 3 7 [])\<lparr>occurrence := Num 0\<rparr>"]
    by (simp_all add: positional_def valid_operation_def occurrence_accepted_def)
  from 1 2 3 4 5 6 show ?thesis by simp
qed

section \<open>Flushes in flight\<close>

text \<open>
  Claim C9 says that no sequence of buffer operations, a forced flush during a flush
  included, ever has two requests in flight. The in-progress flag is consulted by
  \<^verbatim>\<open>addChange\<close> only; \<^verbatim>\<open>flush\<close> does not look at it. An edit that arrives
  during a flush marks the buffer as unflushed, and a forced flush then sends a second
  request while the first is unanswered.
\<close>

theorem force_flush_during_flush_sends_second_request:
  "isFlushInProgress
     (buffer (run [AddChange keystroke ''a'', TimerFires 2, AddChange keystroke ''ab'']
                (new_buffer ''d1'' 0)))
   \<and> length (inFlight (run [AddChange keystroke ''a'', TimerFires 2,
                            AddChange keystroke ''ab''] (new_buffer ''d1'' 0))) = 1
   \<and> length (inFlight (run [AddChange keystroke ''a'', TimerFires 2,
                            AddChange keystroke ''ab'', ForceFlush] (new_buffer ''d1'' 0))) = 2"
  by code_simp

section \<open>Out-of-range positions\<close>

text \<open>
  Claim C10. A positional change (one of the three operations) never raises, whatever
  integers its range holds: the resolved indices are clamped into
  \<open>[0, length content]\<close> by the string primitives. An insert whose start is at or
  beyond the length appends at the end, a delete whose end exceeds the length deletes to
  the end, and a negative start behaves as 0. A sequence of such changes always returns
  a text.
\<close>

theorem positional_never_raises:
  "(valid_operation (operation c) \<and> positional_mode c \<longrightarrow>
      (let s = start (range' c) + off; e = end' (range' c) + off;
           updated = clamped_operation content (operation c) s e (text' c)
       in applyChange (content, off) c
            = Inr (updated, off + (int (length updated) - int (length content)))))
   \<and> ((\<forall>c \<in> set cs. valid_operation (operation c) \<and> positional_mode c) \<longrightarrow>
        (\<exists>updated. applyChanges content cs = Inr updated))
   \<and> (int (length content) \<le> s \<longrightarrow>
        clamped_operation content ''insert'' s e txt = content @ txt)
   \<and> (int (length content) \<le> e \<longrightarrow>
        clamped_operation content ''delete'' s e txt = take (clamp_index content s) content)
   \<and> (s < 0 \<longrightarrow>
        clamped_operation content opn s e txt = clamped_operation content opn 0 e txt)"
proof (intro conjI impI)
  assume a: "valid_operation (operation c) \<and> positional_mode c"
  then show "let s = start (range' c) + off; e = end' (range' c) + off;
           updated = clamped_operation content (operation c) s e (text' c)
       in applyChange (content, off) c
            = Inr (updated, off + (int (length updated) - int (length content)))"
    by (simp add: applyChange_def positional_mode_def Let_def applyOperation_clamped_operation)
next
  assume "\<forall>c \<in> set cs. valid_operation (operation c) \<and> positional_mode c"
  from applyChanges_loop_positional_total [OF this, of "(content, 0)"]
  show "\<exists>updated. applyChanges content cs = Inr updated"
    by (auto simp: applyChanges_def)
next
  assume "int (length content) \<le> s"
  then show "clamped_operation content ''insert'' s e txt = content @ txt"
    by (simp add: clamped_operation_def clamp_index_def)
next
  assume "int (length content) \<le> e"
  then show "clamped_operation content ''delete'' s e txt = take (clamp_index content s) content"
    by (simp add: clamped_operation_def clamp_index_def)
next
  assume "s < 0"
  then show "clamped_operation content opn s e txt = clamped_operation content opn 0 e txt"
    by (simp add: clamped_operation_def clamp_index_def)
qed

theorem positional_never_raises_witness:
  "applyChange (''hello'', 0) (positional ''insert'' 30 1 ''X'') = Inr (''helloX'', 1)
   \<and> applyChange (''helloX'', 1) (positional ''delete'' 2 100 []) = Inr (''hel'', - 2)
   \<and> applyChange (''hello'', 0) (positional ''replace'' (- 4) 1 ''J'') = Inr (''Jello'', 0)
   \<and> (\<exists>updated. applyChanges ''hello''
          [positional ''insert'' 30 1 ''X'', positional ''delete'' 2 100 []] = Inr updated)"
proof -
  let ?i = "positional ''insert'' 30 1 ''X''"
  let ?d = "positional ''delete'' 2 100 []"
  let ?r = "positional ''replace'' (- 4) 1 ''J''"
  have v: "valid_operation (operation ?i) \<and> positional_mode ?i"
    "valid_operation (operation ?d) \<and> positional_mode ?d"
    "valid_operation (operation ?r) \<and> positional_mode ?r"
    by (simp_all add: valid_operation_def positional_mode_def positional_def)
  have c: "clamped_operation ''hello'' ''insert'' 30 1 ''X'' = ''helloX''"
    "clamped_operation ''helloX'' ''delete'' 3 101 [] = ''hel''"
    "clamped_operation ''hello'' ''replace'' (- 4) 1 ''J'' = ''Jello''"
    by (simp_all add: clamped_operation_def clamp_index_def)
  have 1: "applyChange (''hello'', 0) ?i = Inr (''helloX'', 1)"
    using positional_never_raises [of ?i 0 "''hello''" "[]" 0 0 "[]" "[]"] v c
    by (simp add: positional_def Let_def)
  have 2: "applyChange (''helloX'', 1) ?d = Inr (''hel'', - 2)"
    using positional_never_raises [of ?d 1 "''helloX''" "[]" 0 0 "[]" "[]"] v c
    by (simp add: positional_def Let_def)
  have 3: "applyChange (''hello'', 0) ?r = Inr (''Jello'', 0)"
    using positional_never_raises [of ?r 0 "''hello''" "[]" 0 0 "[]" "[]"] v c
    by (simp add: positional_def Let_def)
  have 4: "\<exists>updated. applyChanges ''hello'' [?i, ?d] = Inr updated"
    using positional_never_raises [of ?i 0 "''hello''" "[?i, ?d]" 0 0 "[]" "[]"] v
    by simp
  from 1 2 3 4 show ?thesis by simp
qed

end
